theory Spec2Isabelle
  imports Complex_Main "HOL-Library.Word" "HOL-Library.Signed_Division"
begin

section \<open>Data model of \<open>src/main.cpp\<close>\<close>

text \<open>
  The sketch is a single-threaded Arduino program: global variables, a \<open>setup\<close>
  function and a \<open>loop\<close> function that the runtime calls for ever. The globals
  become one record, every function takes the record and returns the updated one, and
  everything a call of \<open>loop\<close> reads from outside (the serial byte, the clock, the
  two potentiometers, the pseudo random generator) is an explicit input record.

  Conventions.
  \<^item> \<open>unsigned long\<close> is a 32-bit word: subtraction of two clock values wraps, and
    \<open>\<le>\<close> on words is the unsigned comparison of C.
  \<^item> The step indices \<open>scroll_step\<close>, \<open>like_step\<close>, \<open>dubious_step\<close> and
    \<open>current_state\<close> are \<open>int\<close> variables that the program only ever sets to a
    non-negative constant or increments; they are natural numbers here.
  \<^item> \<open>float\<close> values are real numbers: every comparison, branch and clamp of the
    source is kept, the rounding of the single operations is not modelled.
  \<^item> \<open>servo_y\<close> and \<open>servo_z\<close> hold the last angle handed to
    \<open>myservo_y.write\<close> and \<open>myservo_z.write\<close>.
  \<^item> Text printed on the serial line is not part of the state.
  \<^item> One call of \<open>loop\<close> reads the clock once (field \<open>millis\<close> of the input);
    the blocking \<open>delay\<close> calls only let time pass and do not appear.
\<close>

type_synonym ulong = "32 word"

text \<open>
  The tables of \<open>smm_parameters.h\<close>. The header is not part of the sources, so the
  four arrays it declares are a parameter of every function that reads them.
\<close>

record config =
  DWELL_RATE_BY_STATE :: "real list"
  MEAN_DWELL_BY_STATE :: "real list"
  CUM_PROB_SCROLL_BY_STATE :: "real list"
  CUM_PROB_LIKE_BY_STATE :: "real list"

text \<open>
  What one iteration of \<open>loop\<close> receives: \<open>serial_in\<close> is \<open>None\<close> when
  \<open>Serial.available()\<close> is 0 and the byte read otherwise; \<open>rand1\<close> and \<open>rand2\<close>
  are the values of the first and the second call of the generator \<open>random()\<close> in
  this iteration (no iteration calls it more than twice).
\<close>

record input =
  serial_in :: "char option"
  millis :: ulong
  analog_y :: int
  analog_z :: int
  rand1 :: nat
  rand2 :: nat

record state =
  prev_angle_y :: int
  prev_angle_z :: int
  readings_y :: "int list"
  readings_z :: "int list"
  read_index :: nat
  total_y :: int
  total_z :: int
  scroll_active :: bool
  like_active :: bool
  dubious_active :: bool
  knobs_disabled :: bool
  scroll_step :: nat
  like_step :: nat
  dubious_step :: nat
  last_step_time :: ulong
  dubious_wait_time :: ulong
  current_y :: int
  current_z :: int
  target_y :: int
  target_z :: int
  start_y :: int
  start_z :: int
  step_start_time :: ulong
  step_in_progress :: bool
  simulation_start_time :: ulong
  event_counter :: ulong
  current_state :: nat
  total_dwell_time :: real
  use_like2_variant :: bool
  smm_mode_active :: bool
  smm_waiting :: bool
  smm_wait_start :: ulong
  smm_wait_duration :: ulong
  state_transitions :: "ulong list"
  total_dwell_by_state :: "real list"
  last_debug :: ulong
  servo_y :: int
  servo_z :: int

subsection \<open>Constants\<close>

definition num_readings :: nat where
  "num_readings = 5"

definition scroll_step_delays :: "ulong list" where
  "scroll_step_delays = [200, 300, 300, 0, 200]"

definition like_step_delay :: ulong where
  "like_step_delay = 100"

definition dubious_step_delay :: ulong where
  "dubious_step_delay = 200"

definition dubious_wait_min :: ulong where
  "dubious_wait_min = 500"

definition dubious_wait_max :: ulong where
  "dubious_wait_max = 2000"

definition STATE_AFTER_SCROLL :: nat where
  "STATE_AFTER_SCROLL = 0"

definition STATE_AFTER_LIKE :: nat where
  "STATE_AFTER_LIKE = 1"

definition STATE_AFTER_DUBIOUS :: nat where
  "STATE_AFTER_DUBIOUS = 2"

definition ACTION_SCROLL :: nat where
  "ACTION_SCROLL = 0"

definition ACTION_LIKE :: nat where
  "ACTION_LIKE = 1"

definition ACTION_DUBIOUS_SCROLL :: nat where
  "ACTION_DUBIOUS_SCROLL = 2"

definition MAX_DWELL_TIME :: real where
  "MAX_DWELL_TIME = 30"

subsection \<open>Library calls\<close>

text \<open>
  \<open>random(howsmall, howbig)\<close> of the Arduino core returns \<open>howsmall\<close> when the
  range is empty and \<open>random() % (howbig - howsmall) + howsmall\<close> otherwise; \<open>raw\<close>
  is the non-negative value of \<open>random()\<close>.
\<close>

definition random_range :: "nat \<Rightarrow> nat \<Rightarrow> nat \<Rightarrow> nat" where
  "random_range howsmall howbig raw =
     (if howsmall \<ge> howbig then howsmall else raw mod (howbig - howsmall) + howsmall)"

text \<open>
  \<open>map(x, in_min, in_max, out_min, out_max)\<close> of the Arduino core, in \<open>long\<close>
  arithmetic with the truncating division of C.
\<close>

definition map_range :: "int \<Rightarrow> int \<Rightarrow> int \<Rightarrow> int \<Rightarrow> int \<Rightarrow> int" where
  "map_range x in_min in_max out_min out_max =
     ((x - in_min) * (out_max - out_min)) sdiv (in_max - in_min) + out_min"

text \<open>The conversion \<open>(int) x\<close> of a \<open>float\<close>: the fraction is discarded.\<close>

definition trunc :: "real \<Rightarrow> int" where
  "trunc x = (if 0 \<le> x then \<lfloor>x\<rfloor> else \<lceil>x\<rceil>)"

section \<open>Motion interpolation\<close>

text \<open>\<open>smoothMoveServos\<close>: the third parameter is never read by the body.\<close>

definition smoothMoveServos :: "int \<Rightarrow> int \<Rightarrow> ulong \<Rightarrow> ulong \<Rightarrow> state \<Rightarrow> state" where
  "smoothMoveServos new_target_y new_target_z duration_ms now s =
     s\<lparr>start_y := current_y s,
       start_z := current_z s,
       target_y := new_target_y,
       target_z := new_target_z,
       step_start_time := now,
       step_in_progress := True\<rparr>"

definition updateServoPositions :: "ulong \<Rightarrow> state \<Rightarrow> state" where
  "updateServoPositions now s =
     (if \<not> step_in_progress s then s
      else
        let elapsed = now - step_start_time s in
        if scroll_step s \<ge> 5 then s\<lparr>step_in_progress := False\<rparr>
        else
          let duration = scroll_step_delays ! scroll_step s in
          if elapsed \<ge> duration then
            s\<lparr>current_y := target_y s,
              current_z := target_z s,
              servo_y := target_y s,
              servo_z := target_z s,
              step_in_progress := False\<rparr>
          else
            let progress = real (unat elapsed) / real (unat duration);
                cy = start_y s + trunc (real_of_int (target_y s - start_y s) * progress);
                cz = start_z s + trunc (real_of_int (target_z s - start_z s) * progress)
            in s\<lparr>current_y := cy, current_z := cz, servo_y := cy, servo_z := cz\<rparr>)"

section \<open>Semi-Markov model functions\<close>

definition random_uniform :: "nat \<Rightarrow> real" where
  "random_uniform raw = real (random_range 0 32768 raw) / 32767"

text \<open>
  \<open>sample_exponential\<close> draws \<open>u\<close> and computes on it; \<open>sample_exponential_u\<close>
  is the body after the draw, so that the value computed for a given \<open>u\<close> can be
  stated. A rate of zero divides by zero in the source (an IEEE infinity, not the 0 of
  HOL): the statements about the sampler are for rates other than zero.
\<close>

definition sample_exponential_u :: "real \<Rightarrow> real \<Rightarrow> real" where
  "sample_exponential_u rate u0 =
     (let u = (if u0 \<le> 0.0001 then 0.0001 else u0);
          sample = (if u > 0.9999 then 0.1 else (1 - u) / rate);
          sample = (if sample > MAX_DWELL_TIME then MAX_DWELL_TIME else sample);
          sample = (if sample < 0.1 then 0.1 else sample)
      in sample)"

definition sample_exponential :: "real \<Rightarrow> nat \<Rightarrow> real" where
  "sample_exponential rate raw = sample_exponential_u rate (random_uniform raw)"

definition select_next_action :: "config \<Rightarrow> nat \<Rightarrow> nat \<Rightarrow> nat" where
  "select_next_action cfg st raw =
     (let r = random_uniform raw in
      if r < CUM_PROB_SCROLL_BY_STATE cfg ! st then ACTION_SCROLL
      else if r < CUM_PROB_LIKE_BY_STATE cfg ! st then ACTION_LIKE
      else ACTION_DUBIOUS_SCROLL)"

text \<open>
  \<open>execute_smm_action\<close>: the counters are bumped first, with the state the process is
  still in, then the \<open>switch\<close> starts the gesture and moves to the new state. The coin
  of the Like case is the second draw of the iteration (the first chose the action).
\<close>

definition execute_smm_action :: "nat \<Rightarrow> input \<Rightarrow> state \<Rightarrow> state" where
  "execute_smm_action action_code inp s =
     (let s1 = s\<lparr>event_counter := event_counter s + 1,
                 state_transitions :=
                   (state_transitions s)[current_state s :=
                      state_transitions s ! current_state s + 1]\<rparr>
      in
      if action_code = ACTION_SCROLL then
        s1\<lparr>scroll_active := True,
           scroll_step := 0,
           knobs_disabled := True,
           current_state := STATE_AFTER_SCROLL\<rparr>
      else if action_code = ACTION_LIKE then
        s1\<lparr>use_like2_variant := (random_range 0 2 (rand2 inp) = 1),
           like_active := True,
           like_step := 0,
           last_step_time := millis inp,
           knobs_disabled := True,
           current_state := STATE_AFTER_LIKE\<rparr>
      else if action_code = ACTION_DUBIOUS_SCROLL then
        s1\<lparr>dubious_active := True,
           dubious_step := 0,
           dubious_wait_time := 0,
           last_step_time := millis inp,
           knobs_disabled := True,
           current_state := STATE_AFTER_DUBIOUS\<rparr>
      else s1)"

section \<open>Gesture sequencers\<close>

definition scroll_next :: "state \<Rightarrow> state" where
  "scroll_next s = s\<lparr>scroll_step := scroll_step s + 1\<rparr>"

definition executeScroll :: "ulong \<Rightarrow> state \<Rightarrow> state" where
  "executeScroll now s0 =
     (let s = updateServoPositions now s0 in
      if \<not> step_in_progress s then
        if scroll_step s = 0 then
          scroll_next (smoothMoveServos 142 142 (scroll_step_delays ! scroll_step s) now s)
        else if scroll_step s = 1 then
          scroll_next (smoothMoveServos 110 142 (scroll_step_delays ! scroll_step s) now s)
        else if scroll_step s = 2 then
          scroll_next (smoothMoveServos 90 100 (scroll_step_delays ! scroll_step s) now s)
        else if scroll_step s = 3 then
          scroll_next (smoothMoveServos 147 100 (scroll_step_delays ! scroll_step s) now s)
        else if scroll_step s = 4 then s\<lparr>scroll_active := False, scroll_step := 0\<rparr>
        else scroll_next s
      else s)"

definition like_next :: "ulong \<Rightarrow> state \<Rightarrow> state" where
  "like_next current_time s =
     s\<lparr>like_step := like_step s + 1, last_step_time := current_time\<rparr>"

definition executeLike :: "ulong \<Rightarrow> state \<Rightarrow> state" where
  "executeLike current_time s =
     (if current_time - last_step_time s \<ge> like_step_delay then
        if like_step s = 0 then like_next current_time (s\<lparr>servo_y := 140, servo_z := 120\<rparr>)
        else if like_step s = 1 then like_next current_time (s\<lparr>servo_y := 120\<rparr>)
        else if like_step s = 2 then like_next current_time (s\<lparr>servo_y := 140\<rparr>)
        else if like_step s = 3 then like_next current_time (s\<lparr>servo_y := 120\<rparr>)
        else if like_step s = 4 then
          s\<lparr>servo_y := 140, like_active := False, knobs_disabled := True, like_step := 0\<rparr>
        else like_next current_time s
      else s)"

definition executeLike2 :: "ulong \<Rightarrow> state \<Rightarrow> state" where
  "executeLike2 current_time s =
     (if current_time - last_step_time s \<ge> like_step_delay then
        if like_step s = 0 then like_next current_time (s\<lparr>servo_y := 152, servo_z := 110\<rparr>)
        else if like_step s = 1 then like_next current_time (s\<lparr>servo_y := 120, servo_z := 110\<rparr>)
        else if like_step s = 2 then
          s\<lparr>servo_y := 152, servo_z := 110,
            like_active := False, knobs_disabled := True, like_step := 0\<rparr>
        else like_next current_time s
      else s)"

definition dubious_next :: "ulong \<Rightarrow> state \<Rightarrow> state" where
  "dubious_next current_time s =
     s\<lparr>dubious_step := dubious_step s + 1, last_step_time := current_time\<rparr>"

text \<open>
  The two random waits (\<open>case 3\<close> and \<open>case 5\<close>) have the same body: with no
  duration stored, draw one, store it, restart the step timer and return; with one
  stored, either clear it and leave the \<open>switch\<close> (the step then advances) or return.
\<close>

definition dubious_wait :: "ulong \<Rightarrow> nat \<Rightarrow> state \<Rightarrow> state" where
  "dubious_wait current_time raw s =
     (if dubious_wait_time s = 0 then
        s\<lparr>dubious_wait_time :=
             of_nat (random_range (unat dubious_wait_min) (unat (dubious_wait_max + 1)) raw),
          last_step_time := current_time\<rparr>
      else if current_time - last_step_time s \<ge> dubious_wait_time s then
        dubious_next current_time (s\<lparr>dubious_wait_time := 0\<rparr>)
      else s)"

definition executeDubious :: "ulong \<Rightarrow> nat \<Rightarrow> state \<Rightarrow> state" where
  "executeDubious current_time raw s =
     (if current_time - last_step_time s \<ge> dubious_step_delay then
        if dubious_step s = 0 then dubious_next current_time (s\<lparr>servo_y := 145, servo_z := 122\<rparr>)
        else if dubious_step s = 1 then dubious_next current_time (s\<lparr>servo_y := 125, servo_z := 122\<rparr>)
        else if dubious_step s = 2 then dubious_next current_time (s\<lparr>servo_y := 122, servo_z := 106\<rparr>)
        else if dubious_step s = 3 then dubious_wait current_time raw s
        else if dubious_step s = 4 then dubious_next current_time (s\<lparr>servo_y := 122, servo_z := 134\<rparr>)
        else if dubious_step s = 5 then dubious_wait current_time raw s
        else if dubious_step s = 6 then dubious_next current_time (s\<lparr>servo_y := 122, servo_z := 106\<rparr>)
        else if dubious_step s = 7 then
          s\<lparr>servo_y := 145, servo_z := 122,
            dubious_active := False, knobs_disabled := True, dubious_step := 0\<rparr>
        else dubious_next current_time s
      else s)"

section \<open>\<open>setup\<close> and \<open>loop\<close>\<close>

text \<open>
  \<open>setup_state\<close> is the state the function \<open>setup\<close> leaves behind: the
  initialisers of the globals, the two servo writes, the smoothing buffers filled with
  the first readings, and the start time.
\<close>

definition setup_state :: "int \<Rightarrow> int \<Rightarrow> ulong \<Rightarrow> state" where
  "setup_state initial_pot_y initial_pot_z now =
     \<lparr>prev_angle_y = map_range initial_pot_y 0 1023 0 180,
      prev_angle_z = map_range initial_pot_z 0 1023 0 180,
      readings_y = replicate num_readings initial_pot_y,
      readings_z = replicate num_readings initial_pot_z,
      read_index = 0,
      total_y = initial_pot_y * int num_readings,
      total_z = initial_pot_z * int num_readings,
      scroll_active = False,
      like_active = False,
      dubious_active = False,
      knobs_disabled = False,
      scroll_step = 0,
      like_step = 0,
      dubious_step = 0,
      last_step_time = 0,
      dubious_wait_time = 0,
      current_y = 180,
      current_z = 0,
      target_y = 180,
      target_z = 0,
      start_y = 180,
      start_z = 0,
      step_start_time = 0,
      step_in_progress = False,
      simulation_start_time = now,
      event_counter = 0,
      current_state = STATE_AFTER_SCROLL,
      total_dwell_time = 0,
      use_like2_variant = False,
      smm_mode_active = False,
      smm_waiting = False,
      smm_wait_start = 0,
      smm_wait_duration = 0,
      state_transitions = [0, 0, 0],
      total_dwell_by_state = [0, 0, 0],
      last_debug = 0,
      servo_y = 180,
      servo_z = 0\<rparr>"

text \<open>The command block of \<open>loop\<close>, for the byte \<open>c\<close> read from the serial line.\<close>

definition serial_command :: "char \<Rightarrow> ulong \<Rightarrow> state \<Rightarrow> state" where
  "serial_command c now s =
     (if c = CHR ''s'' \<or> c = CHR ''S'' then
        if \<not> scroll_active s \<and> \<not> like_active s \<and> \<not> dubious_active s then
          s\<lparr>scroll_active := True, knobs_disabled := True, scroll_step := 0,
            last_step_time := now\<rparr>
        else s
      else if c = CHR ''l'' \<or> c = CHR ''L'' then
        if \<not> scroll_active s \<and> \<not> like_active s \<and> \<not> dubious_active s then
          s\<lparr>like_active := True, knobs_disabled := True, like_step := 0,
            last_step_time := now\<rparr>
        else s
      else if c = CHR ''d'' \<or> c = CHR ''D'' then
        if \<not> scroll_active s \<and> \<not> like_active s \<and> \<not> dubious_active s then
          s\<lparr>dubious_active := True, knobs_disabled := True, dubious_step := 0,
            dubious_wait_time := 0, last_step_time := now\<rparr>
        else s
      else if c = CHR ''m'' \<or> c = CHR ''M'' then
        if \<not> smm_mode_active s then
          s\<lparr>smm_mode_active := True, simulation_start_time := now, knobs_disabled := True\<rparr>
        else
          s\<lparr>smm_mode_active := False, knobs_disabled := False\<rparr>
      else if c = CHR ''r'' \<or> c = CHR ''R'' then
        s\<lparr>knobs_disabled := False, smm_mode_active := False, scroll_active := False,
          like_active := False, dubious_active := False\<rparr>
      else s)"

text \<open>The potentiometer block of \<open>loop\<close> (moving average over five readings).\<close>

definition potentiometer_control :: "input \<Rightarrow> state \<Rightarrow> state" where
  "potentiometer_control inp s =
     (let i = read_index s;
          ty0 = total_y s - readings_y s ! i;
          tz0 = total_z s - readings_z s ! i;
          ry = (readings_y s)[i := analog_y inp];
          rz = (readings_z s)[i := analog_z inp];
          ty = ty0 + ry ! i;
          tz = tz0 + rz ! i;
          i' = (if i + 1 \<ge> num_readings then 0 else i + 1);
          avg_y = ty sdiv int num_readings;
          avg_z = tz sdiv int num_readings;
          angle_y = map_range avg_y 0 1023 0 180;
          angle_z = map_range avg_z 0 1023 0 180;
          s1 = s\<lparr>total_y := ty, total_z := tz, readings_y := ry, readings_z := rz,
                 read_index := i'\<rparr>;
          s2 = (if angle_y \<noteq> prev_angle_y s1
                then s1\<lparr>servo_y := angle_y, prev_angle_y := angle_y\<rparr> else s1);
          s3 = (if angle_z \<noteq> prev_angle_z s2
                then s2\<lparr>servo_z := angle_z, prev_angle_z := angle_z\<rparr> else s2)
      in s3)"

text \<open>The Semi-Markov block at the end of \<open>loop\<close>.\<close>

definition smm_guard :: "state \<Rightarrow> bool" where
  "smm_guard s \<longleftrightarrow>
     smm_mode_active s \<and> \<not> scroll_active s \<and> \<not> like_active s \<and> \<not> dubious_active s
     \<and> knobs_disabled s"

definition smm_execution :: "config \<Rightarrow> input \<Rightarrow> state \<Rightarrow> state" where
  "smm_execution cfg inp s =
     (if smm_guard s then
        if \<not> smm_waiting s then
          let dwell_rate = DWELL_RATE_BY_STATE cfg ! current_state s;
              dwell_time = sample_exponential dwell_rate (rand1 inp)
          in s\<lparr>total_dwell_time := total_dwell_time s + dwell_time,
               total_dwell_by_state :=
                 (total_dwell_by_state s)[current_state s :=
                    total_dwell_by_state s ! current_state s + dwell_time],
               smm_wait_start := millis inp,
               smm_wait_duration := of_int (trunc (dwell_time * 1000)),
               smm_waiting := True\<rparr>
        else if millis inp - smm_wait_start s \<ge> smm_wait_duration s then
          let s1 = s\<lparr>smm_waiting := False\<rparr>;
              action = select_next_action cfg (current_state s1) (rand1 inp)
          in execute_smm_action action inp s1
        else s
      else s)"

text \<open>
  \<open>loop\<close> starts with the five-second debug timer and the command read from the
  serial line (\<open>command_phase\<close>), then drives the active gesture and returns, or
  else runs the potentiometer block and the Semi-Markov block.
\<close>

definition command_phase :: "input \<Rightarrow> state \<Rightarrow> state" where
  "command_phase inp s =
     (let now = millis inp;
          s0 = (if now - last_debug s > 5000 then s\<lparr>last_debug := now\<rparr> else s)
      in case serial_in inp of None \<Rightarrow> s0 | Some c \<Rightarrow> serial_command c now s0)"

definition loop :: "config \<Rightarrow> input \<Rightarrow> state \<Rightarrow> state" where
  "loop cfg inp s =
     (let now = millis inp;
          s1 = command_phase inp s
      in
      if scroll_active s1 then executeScroll now s1
      else if like_active s1 then executeLike now s1
      else if dubious_active s1 then executeDubious now (rand1 inp) s1
      else
        let s2 = (if \<not> knobs_disabled s1 then potentiometer_control inp s1 else s1)
        in smm_execution cfg inp s2)"

text \<open>Running \<open>loop\<close> on a list of inputs, and the states the program can be in.\<close>

fun run :: "config \<Rightarrow> state \<Rightarrow> input list \<Rightarrow> state" where
  "run cfg s [] = s"
| "run cfg s (inp # inps) = run cfg (loop cfg inp s) inps"

inductive reachable :: "config \<Rightarrow> state \<Rightarrow> bool" for cfg :: config where
  reach_setup: "reachable cfg (setup_state py pz t0)"
| reach_loop: "reachable cfg s \<Longrightarrow> reachable cfg (loop cfg inp s)"

section \<open>Notions used by the statements\<close>

definition at_most_one_active :: "state \<Rightarrow> bool" where
  "at_most_one_active s \<longleftrightarrow>
     \<not> (scroll_active s \<and> like_active s) \<and> \<not> (scroll_active s \<and> dubious_active s)
     \<and> \<not> (like_active s \<and> dubious_active s)"

text \<open>The variables that only the Semi-Markov block and \<open>execute_smm_action\<close> write.\<close>

definition smm_view ::
  "state \<Rightarrow> bool \<times> ulong \<times> ulong \<times> ulong \<times> nat \<times> ulong list \<times> real \<times> real list \<times> bool" where
  "smm_view s =
     (smm_waiting s, smm_wait_start s, smm_wait_duration s, event_counter s, current_state s,
      state_transitions s, total_dwell_time s, total_dwell_by_state s, use_like2_variant s)"

text \<open>The state named after an action: the correspondence the specification words.\<close>

definition state_of_action :: "nat \<Rightarrow> nat" where
  "state_of_action a =
     (if a = ACTION_SCROLL then STATE_AFTER_SCROLL
      else if a = ACTION_LIKE then STATE_AFTER_LIKE
      else STATE_AFTER_DUBIOUS)"

definition is_reset :: "char option \<Rightarrow> bool" where
  "is_reset c \<longleftrightarrow> c = Some (CHR ''r'') \<or> c = Some (CHR ''R'')"

definition is_toggle :: "char option \<Rightarrow> bool" where
  "is_toggle c \<longleftrightarrow> c = Some (CHR ''m'') \<or> c = Some (CHR ''M'')"

text \<open>
  A run in which no iteration receives the reset command, and none receives the mode
  toggle while the autonomous mode is on (a toggle that switches the mode off).
\<close>

fun no_reenable :: "config \<Rightarrow> state \<Rightarrow> input list \<Rightarrow> bool" where
  "no_reenable cfg s [] = True"
| "no_reenable cfg s (inp # inps) =
     (\<not> is_reset (serial_in inp) \<and> \<not> (is_toggle (serial_in inp) \<and> smm_mode_active s)
      \<and> no_reenable cfg (loop cfg inp s) inps)"

text \<open>
  A run of iterations in none of which the Semi-Markov block takes an action: in each,
  either the block's condition fails after the command block (a gesture is active, the
  mode is off, or the potentiometers are enabled) or the dwell is not over yet.
\<close>

fun dwelling :: "config \<Rightarrow> state \<Rightarrow> input list \<Rightarrow> bool" where
  "dwelling cfg s [] = True"
| "dwelling cfg s (inp # inps) =
     ((\<not> smm_guard (command_phase inp s)
       \<or> millis inp - smm_wait_start s < smm_wait_duration s)
      \<and> dwelling cfg (loop cfg inp s) inps)"




subsection \<open>Concrete inputs\<close>

text \<open>
  Sample tables for evaluating the program at concrete inputs. The thresholds of the
  state after a scroll (0.6 and 0.8) are the ones the specification quotes; the other
  entries are arbitrary admissible values.
\<close>

definition demo_config :: config where
  "demo_config =
     \<lparr>DWELL_RATE_BY_STATE = [1, 1, 1],
      MEAN_DWELL_BY_STATE = [1, 1, 1],
      CUM_PROB_SCROLL_BY_STATE = [0.6, 0.5, 0.5],
      CUM_PROB_LIKE_BY_STATE = [0.8, 0.75, 0.75]\<rparr>"

text \<open>An iteration with both potentiometers at mid-scale.\<close>

definition tick :: "char option \<Rightarrow> ulong \<Rightarrow> nat \<Rightarrow> nat \<Rightarrow> input" where
  "tick c t r1 r2 =
     \<lparr>serial_in = c, millis = t, analog_y = 512, analog_z = 512, rand1 = r1, rand2 = r2\<rparr>"

text \<open>
  States used to evaluate the program: the state after \<open>setup\<close>, the state one
  iteration after the command \<open>s\<close>, the state one iteration after the command
  \<open>m\<close>, and three states whose step index lies beyond the gesture's last step.
\<close>

definition power_on :: state where
  "power_on = setup_state 512 512 0"

definition scrolling :: state where
  "scrolling = loop demo_config (tick (Some (CHR ''s'')) 0 0 0) power_on"

definition autonomous :: state where
  "autonomous = loop demo_config (tick (Some (CHR ''m'')) 0 32767 0) power_on"

definition like_out_of_range :: state where
  "like_out_of_range = power_on\<lparr>like_active := True, like_step := 5\<rparr>"

definition dubious_out_of_range :: state where
  "dubious_out_of_range = power_on\<lparr>dubious_active := True, dubious_step := 8\<rparr>"

definition scroll_out_of_range :: state where
  "scroll_out_of_range =
     power_on\<lparr>scroll_active := True, scroll_step := 5, step_in_progress := True\<rparr>"

text \<open>
  A manual Like gesture run to completion from the state after \<open>setup\<close>, the state
  it ends in, a mode toggle switched on and off again, and the states in which the Like
  and the Dubious gesture are at their last step.
\<close>

definition manual_like_inputs :: "input list" where
  "manual_like_inputs =
     [tick (Some (CHR ''l'')) 0 0 0, tick None 100 0 0, tick None 200 0 0, tick None 300 0 0,
      tick None 400 0 0, tick None 500 0 0]"

definition after_like :: state where
  "after_like = run demo_config power_on manual_like_inputs"

definition toggle_on_off_inputs :: "input list" where
  "toggle_on_off_inputs = [tick (Some (CHR ''m'')) 600 32767 0, tick (Some (CHR ''m'')) 650 0 0]"

definition like_last_step :: state where
  "like_last_step = power_on\<lparr>like_active := True, like_step := 4\<rparr>"

definition dubious_last_step :: state where
  "dubious_last_step = power_on\<lparr>dubious_active := True, dubious_step := 7\<rparr>"

text \<open>
  Autonomous mode switched on in the state after \<open>setup\<close>, followed by the
  iteration in which the dwell is over and the draw 22937 selects the Like action with
  the coin on variant 2; and the state these two iterations end in.
\<close>

definition smm_like_inputs :: "input list" where
  "smm_like_inputs = [tick (Some (CHR ''m'')) 0 32767 0, tick None 100 22937 1]"

definition after_smm_like :: state where
  "after_smm_like = run demo_config power_on smm_like_inputs"

text \<open>
  Iterations during a dwell of 100 ms begun at time 0: one poll before the deadline,
  then a manual Like gesture driven to completion; and the state they end in.
\<close>

definition smm_poll_inputs :: "input list" where
  "smm_poll_inputs =
     [tick None 30 22937 1, tick (Some (CHR ''l'')) 60 0 0, tick None 160 0 0,
      tick None 260 0 0, tick None 360 0 0, tick None 460 0 0, tick None 560 0 0]"

definition after_polls :: state where
  "after_polls = run demo_config autonomous smm_poll_inputs"





text \<open>
  Three iterations, 100 ms apart, that drive the Like gesture after the Semi-Markov
  process has started it; and the scroll gesture at the moment its third move (to 90
  and 100, requested over 300 ms) has just begun.
\<close>

definition like_ticks :: "input list" where
  "like_ticks = [tick None 200 0 0, tick None 300 0 0, tick None 400 0 0]"

definition scroll_third_move :: state where
  "scroll_third_move = run demo_config scrolling [tick None 300 0 0, tick None 600 0 0]"

section \<open>The dwell sampler\<close>

lemma clamp_chain:
  "(let sample = (if v > 0.9999 then 0.1 else q);
        sample = (if sample > MAX_DWELL_TIME then MAX_DWELL_TIME else sample);
        sample = (if sample < 0.1 then 0.1 else sample)
    in sample) = (if v > 0.9999 then 0.1 else max 0.1 (min 30 (q::real)))"
  by (simp add: Let_def max_def min_def MAX_DWELL_TIME_def)

text \<open>
  Claim C5. For every rate above zero the dwell sampler returns a value between 0.1 and
  \<open>MAX_DWELL_TIME\<close>, which is 30. On the uniform draw \<open>u\<close> it computes: \<open>u\<close> is
  raised to the floor 0.0001; above 0.9999 the result is the fixed value 0.1; otherwise
  it is \<open>(1 - u) / rate\<close> clamped into the interval from 0.1 to 30. For \<open>u = 0.5\<close>
  and rate 1 the result is 0.5. The \<open>u\<close> the sampler computes on is its own draw,
  \<open>random(0, 32768) / 32767\<close>.
\<close>

theorem sample_exponential_range:
  assumes "0 < rate"
  shows "0.1 \<le> sample_exponential rate raw \<and> sample_exponential rate raw \<le> MAX_DWELL_TIME
    \<and> MAX_DWELL_TIME = 30
    \<and> sample_exponential_u rate u =
        (let v = max u 0.0001 in
         if v > 0.9999 then 0.1 else max 0.1 (min 30 ((1 - v) / rate)))
    \<and> sample_exponential_u 1 0.5 = 0.5
    \<and> random_uniform raw = real (raw mod 32768) / 32767
    \<and> sample_exponential rate raw =
        (let v = max (random_uniform raw) 0.0001 in
         if v > 0.9999 then 0.1 else max 0.1 (min 30 ((1 - v) / rate)))"
proof -
  have range: "0.1 \<le> sample_exponential_u rate x \<and> sample_exponential_u rate x \<le> 30" for x
    by (simp add: sample_exponential_u_def MAX_DWELL_TIME_def Let_def)
  have shape: "sample_exponential_u rate x =
        (let v = max x 0.0001 in
         if v > 0.9999 then 0.1 else max 0.1 (min 30 ((1 - v) / rate)))" for x
  proof -
    have floor_eq: "(if x \<le> 0.0001 then 0.0001 else x) = max x 0.0001"
      by (simp add: max_def)
    show ?thesis
      unfolding sample_exponential_u_def floor_eq
      by (subst Let_def, subst clamp_chain, subst Let_def, rule refl)
  qed
  have half: "sample_exponential_u 1 0.5 = 0.5"
    by (simp add: sample_exponential_u_def MAX_DWELL_TIME_def Let_def)
  have draw: "random_uniform raw = real (raw mod 32768) / 32767"
    by (simp add: random_uniform_def random_range_def)
  have own: "sample_exponential rate raw =
        (let v = max (random_uniform raw) 0.0001 in
         if v > 0.9999 then 0.1 else max 0.1 (min 30 ((1 - v) / rate)))"
    unfolding sample_exponential_def by (rule shape)
  have bounds: "0.1 \<le> sample_exponential rate raw \<and> sample_exponential rate raw \<le> MAX_DWELL_TIME"
    using range [of "random_uniform raw"] by (simp add: sample_exponential_def MAX_DWELL_TIME_def)
  have m: "MAX_DWELL_TIME = 30"
    by (simp add: MAX_DWELL_TIME_def)
  from bounds m shape [of u] half draw own show ?thesis
    by blast
qed

theorem sample_exponential_range_witness:
  "(0::real) < 2
   \<and> 0.1 \<le> sample_exponential 2 16384 \<and> sample_exponential 2 16384 \<le> 30
   \<and> sample_exponential_u 2 0.5 = 0.25
   \<and> sample_exponential_u 1 0.5 = 0.5
   \<and> random_uniform 16384 = 16384 / 32767
   \<and> sample_exponential 2 16384 = 16383 / 65534
   \<and> sample_exponential 2 0 = 0.49995
   \<and> sample_exponential 2 32767 = 0.1"
proof -
  have h: "(0::real) < 2" by simp
  note t1 = sample_exponential_range [OF h, of 16384 "0.5"]
  note t2 = sample_exponential_range [OF h, of 0 "0.5"]
  note t3 = sample_exponential_range [OF h, of 32767 "0.5"]
  have a: "sample_exponential_u 2 0.5 = 0.25"
    using t1 by (simp add: Let_def)
  have u1: "random_uniform 16384 = 16384 / 32767"
    using t1 by simp
  have u2: "random_uniform 0 = 0"
    using t2 by simp
  have u3: "random_uniform 32767 = 1"
    using t3 by simp
  have b: "sample_exponential 2 16384 = 16383 / 65534"
    using t1 unfolding u1 by (simp add: Let_def)
  have c: "sample_exponential 2 0 = 0.49995"
    using t2 unfolding u2 by (simp add: Let_def)
  have d: "sample_exponential 2 32767 = 0.1"
    using t3 unfolding u3 by (simp add: Let_def)
  from t1 a u1 b c d show ?thesis
    by (simp add: MAX_DWELL_TIME_def)
qed

section \<open>What each part of the loop leaves alone\<close>

lemma updateServoPositions_frame:
  "scroll_active (updateServoPositions t s) = scroll_active s"
  "like_active (updateServoPositions t s) = like_active s"
  "dubious_active (updateServoPositions t s) = dubious_active s"
  "knobs_disabled (updateServoPositions t s) = knobs_disabled s"
  "smm_mode_active (updateServoPositions t s) = smm_mode_active s"
  "scroll_step (updateServoPositions t s) = scroll_step s"
  "like_step (updateServoPositions t s) = like_step s"
  "dubious_step (updateServoPositions t s) = dubious_step s"
  "smm_view (updateServoPositions t s) = smm_view s"
  by (simp_all add: updateServoPositions_def Let_def smm_view_def)

lemma executeScroll_frame:
  "like_active (executeScroll t s) = like_active s"
  "dubious_active (executeScroll t s) = dubious_active s"
  "knobs_disabled (executeScroll t s) = knobs_disabled s"
  "smm_mode_active (executeScroll t s) = smm_mode_active s"
  "like_step (executeScroll t s) = like_step s"
  "dubious_step (executeScroll t s) = dubious_step s"
  by (simp_all add: executeScroll_def scroll_next_def smoothMoveServos_def Let_def updateServoPositions_frame)

lemma executeScroll_view: "smm_view (executeScroll t s) = smm_view s"
proof -
  have "smm_view (smoothMoveServos y z d t x) = smm_view x" for y z d x
    by (simp add: smoothMoveServos_def smm_view_def)
  moreover have "smm_view (scroll_next x) = smm_view x" for x
    by (simp add: smm_view_def scroll_next_def)
  moreover have "smm_view (x\<lparr>scroll_active := b, scroll_step := k\<rparr>) = smm_view x" for x b k
    by (simp add: smm_view_def)
  ultimately show ?thesis
    by (simp add: executeScroll_def Let_def updateServoPositions_frame)
qed

lemma executeScroll_active: "scroll_active (executeScroll t s) \<Longrightarrow> scroll_active s"
  by (simp add: executeScroll_def scroll_next_def smoothMoveServos_def Let_def updateServoPositions_frame
      split: if_splits)

lemma executeScroll_step: "scroll_step s < 5 \<Longrightarrow> scroll_step (executeScroll t s) < 5"
  by (auto simp add: executeScroll_def scroll_next_def smoothMoveServos_def Let_def updateServoPositions_frame)

lemma executeLike_frame:
  "scroll_active (executeLike t s) = scroll_active s"
  "dubious_active (executeLike t s) = dubious_active s"
  "smm_mode_active (executeLike t s) = smm_mode_active s"
  "scroll_step (executeLike t s) = scroll_step s"
  "dubious_step (executeLike t s) = dubious_step s"
  "smm_view (executeLike t s) = smm_view s"
  by (simp_all add: executeLike_def like_next_def smm_view_def)

lemma executeLike_active: "like_active (executeLike t s) \<Longrightarrow> like_active s"
  by (simp add: executeLike_def like_next_def split: if_splits)

lemma executeLike_knobs: "knobs_disabled s \<Longrightarrow> knobs_disabled (executeLike t s)"
  by (simp add: executeLike_def like_next_def)

lemma executeLike_step: "like_step s < 5 \<Longrightarrow> like_step (executeLike t s) < 5"
  by (auto simp add: executeLike_def like_next_def)

lemma executeDubious_frame:
  "scroll_active (executeDubious t r s) = scroll_active s"
  "like_active (executeDubious t r s) = like_active s"
  "smm_mode_active (executeDubious t r s) = smm_mode_active s"
  "scroll_step (executeDubious t r s) = scroll_step s"
  "like_step (executeDubious t r s) = like_step s"
  "smm_view (executeDubious t r s) = smm_view s"
  by (simp_all add: executeDubious_def dubious_next_def dubious_wait_def smm_view_def)

lemma executeDubious_active: "dubious_active (executeDubious t r s) \<Longrightarrow> dubious_active s"
  by (simp add: executeDubious_def dubious_next_def dubious_wait_def split: if_splits)

lemma executeDubious_knobs: "knobs_disabled s \<Longrightarrow> knobs_disabled (executeDubious t r s)"
  by (simp add: executeDubious_def dubious_next_def dubious_wait_def)

lemma executeDubious_step: "dubious_step s < 8 \<Longrightarrow> dubious_step (executeDubious t r s) < 8"
  by (auto simp add: executeDubious_def dubious_next_def dubious_wait_def)

lemma potentiometer_control_frame:
  "scroll_active (potentiometer_control inp s) = scroll_active s"
  "like_active (potentiometer_control inp s) = like_active s"
  "dubious_active (potentiometer_control inp s) = dubious_active s"
  "knobs_disabled (potentiometer_control inp s) = knobs_disabled s"
  "smm_mode_active (potentiometer_control inp s) = smm_mode_active s"
  "scroll_step (potentiometer_control inp s) = scroll_step s"
  "like_step (potentiometer_control inp s) = like_step s"
  "dubious_step (potentiometer_control inp s) = dubious_step s"
  "smm_view (potentiometer_control inp s) = smm_view s"
  by (simp_all add: potentiometer_control_def Let_def smm_view_def)

lemma serial_command_excl:
  "at_most_one_active s \<Longrightarrow> at_most_one_active (serial_command c t s)"
  by (auto simp add: serial_command_def at_most_one_active_def)

lemma serial_command_smm_knobs:
  "(smm_mode_active s \<longrightarrow> knobs_disabled s) \<Longrightarrow>
   smm_mode_active (serial_command c t s) \<longrightarrow> knobs_disabled (serial_command c t s)"
  by (simp add: serial_command_def)

lemma serial_command_steps:
  "scroll_step s < 5 \<Longrightarrow> scroll_step (serial_command c t s) < 5"
  "like_step s < 5 \<Longrightarrow> like_step (serial_command c t s) < 5"
  "dubious_step s < 8 \<Longrightarrow> dubious_step (serial_command c t s) < 8"
  by (simp_all add: serial_command_def)

lemma serial_command_view: "smm_view (serial_command c t s) = smm_view s"
  by (simp add: serial_command_def smm_view_def)

lemma command_phase_excl:
  "at_most_one_active s \<Longrightarrow> at_most_one_active (command_phase inp s)"
proof -
  assume a: "at_most_one_active s"
  have b: "at_most_one_active (s\<lparr>last_debug := d\<rparr>)" for d
    using a by (simp add: at_most_one_active_def)
  show ?thesis
    using a b by (simp add: command_phase_def Let_def serial_command_excl split: option.splits)
qed

lemma command_phase_smm_knobs:
  assumes "smm_mode_active s \<longrightarrow> knobs_disabled s"
  shows "smm_mode_active (command_phase inp s) \<longrightarrow> knobs_disabled (command_phase inp s)"
proof -
  have b: "smm_mode_active (s\<lparr>last_debug := d\<rparr>) \<longrightarrow> knobs_disabled (s\<lparr>last_debug := d\<rparr>)" for d
    using assms by simp
  show ?thesis
    using assms serial_command_smm_knobs [OF b] serial_command_smm_knobs [OF assms]
    by (simp add: command_phase_def Let_def split: option.splits)
qed

lemma command_phase_steps:
  assumes "scroll_step s < 5 \<and> like_step s < 5 \<and> dubious_step s < 8"
  shows "scroll_step (command_phase inp s) < 5 \<and> like_step (command_phase inp s) < 5
    \<and> dubious_step (command_phase inp s) < 8"
  using assms by (simp add: command_phase_def Let_def serial_command_steps split: option.splits)

lemma command_phase_view: "smm_view (command_phase inp s) = smm_view s"
proof -
  have "smm_view (s\<lparr>last_debug := d\<rparr>) = smm_view s" for d
    by (simp add: smm_view_def)
  then show ?thesis
    by (simp add: command_phase_def Let_def serial_command_view split: option.splits)
qed

lemma execute_smm_action_frame:
  "smm_mode_active (execute_smm_action a inp s) = smm_mode_active s"
  "knobs_disabled s \<Longrightarrow> knobs_disabled (execute_smm_action a inp s)"
  "scroll_step s < 5 \<Longrightarrow> scroll_step (execute_smm_action a inp s) < 5"
  "like_step s < 5 \<Longrightarrow> like_step (execute_smm_action a inp s) < 5"
  "dubious_step s < 8 \<Longrightarrow> dubious_step (execute_smm_action a inp s) < 8"
  by (simp_all add: execute_smm_action_def Let_def)

lemma execute_smm_action_excl:
  "\<not> scroll_active s \<Longrightarrow> \<not> like_active s \<Longrightarrow> \<not> dubious_active s \<Longrightarrow>
   at_most_one_active (execute_smm_action a inp s)"
  by (simp add: execute_smm_action_def Let_def at_most_one_active_def)

lemma smm_execution_idle: "\<not> smm_guard s \<Longrightarrow> smm_execution cfg inp s = s"
  by (simp add: smm_execution_def)

lemma smm_execution_frame:
  "smm_mode_active (smm_execution cfg inp s) = smm_mode_active s"
  "knobs_disabled s \<Longrightarrow> knobs_disabled (smm_execution cfg inp s)"
  "scroll_step s < 5 \<Longrightarrow> scroll_step (smm_execution cfg inp s) < 5"
  "like_step s < 5 \<Longrightarrow> like_step (smm_execution cfg inp s) < 5"
  "dubious_step s < 8 \<Longrightarrow> dubious_step (smm_execution cfg inp s) < 8"
  by (simp_all add: smm_execution_def Let_def execute_smm_action_frame)

lemma smm_execution_excl:
  assumes "at_most_one_active s"
  shows "at_most_one_active (smm_execution cfg inp s)"
proof (cases "smm_guard s")
  case False
  with assms show ?thesis by (simp add: smm_execution_idle)
next
  case True
  then have idle: "\<not> scroll_active s" "\<not> like_active s" "\<not> dubious_active s"
    by (simp_all add: smm_guard_def)
  have "at_most_one_active (s\<lparr>smm_waiting := False\<rparr>)"
    using idle by (simp add: at_most_one_active_def)
  moreover have "at_most_one_active (execute_smm_action a inp (s\<lparr>smm_waiting := False\<rparr>))" for a
    using idle by (intro execute_smm_action_excl) simp_all
  ultimately show ?thesis
    using assms by (simp add: smm_execution_def Let_def at_most_one_active_def)
qed

lemma executeScroll_excl: "at_most_one_active s \<Longrightarrow> at_most_one_active (executeScroll t s)"
  using executeScroll_active [of t s]
  by (auto simp add: at_most_one_active_def executeScroll_frame)

lemma executeLike_excl: "at_most_one_active s \<Longrightarrow> at_most_one_active (executeLike t s)"
  using executeLike_active [of t s]
  by (auto simp add: at_most_one_active_def executeLike_frame)

lemma executeDubious_excl: "at_most_one_active s \<Longrightarrow> at_most_one_active (executeDubious t r s)"
  using executeDubious_active [of t r s]
  by (auto simp add: at_most_one_active_def executeDubious_frame)

lemma potentiometer_control_excl:
  "at_most_one_active s \<Longrightarrow> at_most_one_active (potentiometer_control inp s)"
  by (simp add: at_most_one_active_def potentiometer_control_frame)

lemma loop_excl:
  assumes "at_most_one_active s"
  shows "at_most_one_active (loop cfg inp s)"
proof -
  have "at_most_one_active (command_phase inp s)"
    using assms by (rule command_phase_excl)
  then show ?thesis
    by (simp add: loop_def Let_def executeScroll_excl executeLike_excl executeDubious_excl
        smm_execution_excl potentiometer_control_excl)
qed

lemma loop_smm_knobs:
  assumes "smm_mode_active s \<longrightarrow> knobs_disabled s"
  shows "smm_mode_active (loop cfg inp s) \<longrightarrow> knobs_disabled (loop cfg inp s)"
proof -
  let ?s1 = "command_phase inp s"
  have c: "smm_mode_active ?s1 \<longrightarrow> knobs_disabled ?s1"
    using assms by (rule command_phase_smm_knobs)
  show ?thesis
  proof (cases "smm_mode_active ?s1")
    case False
    then show ?thesis
      by (simp add: loop_def Let_def executeScroll_frame executeLike_frame
          executeDubious_frame smm_execution_frame potentiometer_control_frame)
  next
    case True
    with c have k: "knobs_disabled ?s1" by simp
    then show ?thesis
      by (simp add: loop_def Let_def executeScroll_frame executeLike_knobs
          executeDubious_knobs smm_execution_frame)
  qed
qed

lemma loop_steps:
  assumes "scroll_step s < 5 \<and> like_step s < 5 \<and> dubious_step s < 8"
  shows "scroll_step (loop cfg inp s) < 5 \<and> like_step (loop cfg inp s) < 5
    \<and> dubious_step (loop cfg inp s) < 8"
proof -
  let ?s1 = "command_phase inp s"
  have c: "scroll_step ?s1 < 5 \<and> like_step ?s1 < 5 \<and> dubious_step ?s1 < 8"
    using assms by (rule command_phase_steps)
  then show ?thesis
    by (simp add: loop_def Let_def executeScroll_frame executeScroll_step
        executeLike_frame executeLike_step executeDubious_frame executeDubious_step
        smm_execution_frame potentiometer_control_frame)
qed

lemma reachable_run: "reachable cfg s \<Longrightarrow> reachable cfg (run cfg s inps)"
  by (induction inps arbitrary: s) (auto intro: reach_loop)

section \<open>Evaluation at concrete inputs\<close>

lemmas model_defs = loop_def command_phase_def serial_command_def executeScroll_def
  scroll_next_def
  executeLike_def executeLike2_def executeDubious_def updateServoPositions_def
  smoothMoveServos_def like_next_def dubious_next_def dubious_wait_def
  potentiometer_control_def smm_execution_def smm_guard_def execute_smm_action_def
  select_next_action_def sample_exponential_def sample_exponential_u_def random_uniform_def
  random_range_def map_range_def trunc_def setup_state_def tick_def demo_config_def
  num_readings_def scroll_step_delays_def like_step_delay_def dubious_step_delay_def
  dubious_wait_min_def dubious_wait_max_def STATE_AFTER_SCROLL_def STATE_AFTER_LIKE_def
  STATE_AFTER_DUBIOUS_def ACTION_SCROLL_def ACTION_LIKE_def ACTION_DUBIOUS_SCROLL_def
  MAX_DWELL_TIME_def Let_def power_on_def

lemma serial_command_busy:
  assumes "scroll_active s \<or> like_active s \<or> dubious_active s"
    and "c \<in> set ''sSlLdD''"
  shows "serial_command c t s = s"
proof -
  from assms(2) have "c = CHR ''s'' \<or> c = CHR ''S'' \<or> c = CHR ''l'' \<or> c = CHR ''L''
      \<or> c = CHR ''d'' \<or> c = CHR ''D''"
    by simp
  with assms(1) show ?thesis
    unfolding serial_command_def by (elim disjE) simp_all
qed

section \<open>Mutual exclusion of the gestures\<close>

text \<open>
  Claim C9. In every reachable state at most one of \<open>scroll_active\<close>,
  \<open>like_active\<close> and \<open>dubious_active\<close> is set. A manual gesture command received
  while a gesture is active changes nothing, every command leaves at most one flag set,
  and the Semi-Markov block does nothing while a gesture is active and leaves at most
  one flag set when it fires.
\<close>

theorem at_most_one_gesture_active:
  assumes "reachable cfg s"
  shows "at_most_one_active s
    \<and> (scroll_active s \<or> like_active s \<or> dubious_active s \<longrightarrow>
         c \<in> set ''sSlLdD'' \<longrightarrow> serial_command c t s = s)
    \<and> at_most_one_active (serial_command c t s)
    \<and> (scroll_active s \<or> like_active s \<or> dubious_active s \<longrightarrow> smm_execution cfg inp s = s)
    \<and> at_most_one_active (smm_execution cfg inp s)"
proof -
  from assms have one: "at_most_one_active s"
  proof (induction rule: reachable.induct)
    case (reach_setup py pz t0)
    show ?case by (simp add: at_most_one_active_def setup_state_def)
  next
    case (reach_loop s inp)
    from reach_loop.IH show ?case by (rule loop_excl)
  qed
  have "scroll_active s \<or> like_active s \<or> dubious_active s \<Longrightarrow> smm_execution cfg inp s = s"
    by (rule smm_execution_idle) (auto simp add: smm_guard_def)
  moreover note one serial_command_busy [of s c t] serial_command_excl [OF one, of c t]
    smm_execution_excl [OF one, of cfg inp]
  ultimately show ?thesis by blast
qed

theorem at_most_one_gesture_active_witness:
  "reachable demo_config scrolling \<and> scroll_active scrolling \<and> CHR ''l'' \<in> set ''sSlLdD''
   \<and> at_most_one_active scrolling \<and> \<not> like_active scrolling \<and> \<not> dubious_active scrolling
   \<and> serial_command (CHR ''l'') 5 scrolling = scrolling
   \<and> smm_execution demo_config (tick None 5 0 0) scrolling = scrolling"
proof -
  have r: "reachable demo_config scrolling"
    unfolding scrolling_def by (rule reach_loop [OF reach_setup [of _ 512 512 0, folded power_on_def]])
  have a: "scroll_active scrolling"
    by (simp add: scrolling_def model_defs)
  from at_most_one_gesture_active [OF r, of "CHR ''l''" 5 "tick None 5 0 0"] r a
  show ?thesis by (simp add: at_most_one_active_def)
qed

section \<open>Autonomous mode and the potentiometers\<close>

text \<open>
  Claim C10. In every reachable state \<open>smm_mode_active\<close> implies
  \<open>knobs_disabled\<close>. The same holds after the command block of an iteration, which
  is where the mode toggle and the reset act: when the potentiometer block is about to
  run (\<open>knobs_disabled\<close> false) the autonomous mode is off, and the iteration leaves
  every variable of the Semi-Markov process as it was.
\<close>

theorem autonomous_mode_disables_knobs:
  assumes "reachable cfg s"
  shows "(smm_mode_active s \<longrightarrow> knobs_disabled s)
    \<and> (\<not> knobs_disabled (command_phase inp s) \<longrightarrow> \<not> smm_mode_active (command_phase inp s))
    \<and> (\<not> knobs_disabled (command_phase inp s) \<longrightarrow> smm_view (loop cfg inp s) = smm_view s)"
proof -
  from assms have inv: "smm_mode_active s \<longrightarrow> knobs_disabled s"
  proof (induction rule: reachable.induct)
    case (reach_setup py pz t0)
    show ?case by (simp add: setup_state_def)
  next
    case (reach_loop s inp)
    from reach_loop.IH show ?case by (rule loop_smm_knobs)
  qed
  have after: "smm_mode_active (command_phase inp s) \<longrightarrow> knobs_disabled (command_phase inp s)"
    using inv by (rule command_phase_smm_knobs)
  have quiet: "smm_view (loop cfg inp s) = smm_view s" if "\<not> knobs_disabled (command_phase inp s)"
  proof -
    let ?s1 = "command_phase inp s"
    have "\<not> smm_guard (potentiometer_control inp ?s1)"
      using that by (simp add: smm_guard_def potentiometer_control_frame)
    then have "smm_execution cfg inp (potentiometer_control inp ?s1) = potentiometer_control inp ?s1"
      by (rule smm_execution_idle)
    with that show ?thesis
      by (simp add: loop_def Let_def executeScroll_view executeLike_frame executeDubious_frame
          potentiometer_control_frame command_phase_view)
  qed
  from inv after quiet show ?thesis by blast
qed

theorem autonomous_mode_disables_knobs_witness:
  "reachable demo_config autonomous \<and> smm_mode_active autonomous \<and> knobs_disabled autonomous
   \<and> \<not> knobs_disabled (command_phase (tick (Some (CHR ''m'')) 50 0 0) autonomous)
   \<and> \<not> smm_mode_active (command_phase (tick (Some (CHR ''m'')) 50 0 0) autonomous)
   \<and> smm_view (loop demo_config (tick (Some (CHR ''m'')) 50 0 0) autonomous) = smm_view autonomous"
proof -
  have r: "reachable demo_config autonomous"
    unfolding autonomous_def
    by (rule reach_loop [OF reach_setup [of _ 512 512 0, folded power_on_def]])
  have a: "smm_mode_active autonomous"
    by (simp add: autonomous_def model_defs)
  have b: "\<not> knobs_disabled (command_phase (tick (Some (CHR ''m'')) 50 0 0) autonomous)"
    by (simp add: autonomous_def model_defs)
  from autonomous_mode_disables_knobs [OF r, of "tick (Some (CHR ''m'')) 50 0 0"] r a b
  show ?thesis by simp
qed

section \<open>Step indices\<close>

text \<open>
  Claim C4 asks that a sequencer tick at a step index beyond the gesture's last step
  deactivates the gesture and does not advance the index. The sequencers have no such
  branch: at an index that matches no \<open>case\<close> the \<open>switch\<close> does nothing and the
  code after it increments the index, with the gesture still active. (For Scroll the
  check in \<open>updateServoPositions\<close> clears \<open>step_in_progress\<close>, after which
  \<open>executeScroll\<close> increments \<open>scroll_step\<close> all the same.)
\<close>

theorem step_index_out_of_range_counterexample:
  "like_active (executeLike 100 like_out_of_range)
   \<and> like_step like_out_of_range = 5 \<and> like_step (executeLike 100 like_out_of_range) = 6
   \<and> dubious_active (executeDubious 200 0 dubious_out_of_range)
   \<and> dubious_step dubious_out_of_range = 8
   \<and> dubious_step (executeDubious 200 0 dubious_out_of_range) = 9
   \<and> scroll_active (executeScroll 100 scroll_out_of_range)
   \<and> scroll_step scroll_out_of_range = 5
   \<and> scroll_step (executeScroll 100 scroll_out_of_range) = 6"
  by (simp add: like_out_of_range_def dubious_out_of_range_def scroll_out_of_range_def model_defs)

text \<open>
  Claim C4, amended. In every reachable state the three step indices lie inside their
  gestures (\<open>scroll_step\<close> and \<open>like_step\<close> below 5, \<open>dubious_step\<close> below 8),
  so no tick is performed at an index out of range. The one explicit check is in
  \<open>updateServoPositions\<close>: with a move in progress and \<open>scroll_step\<close> at 5 or
  more it clears \<open>step_in_progress\<close> and changes nothing else (the delay table is
  not read, positions and step index stay).
\<close>

theorem step_index_in_range:
  "(reachable cfg s \<longrightarrow> scroll_step s < 5 \<and> like_step s < 5 \<and> dubious_step s < 8)
   \<and> (step_in_progress s' \<and> 5 \<le> scroll_step s' \<longrightarrow>
        updateServoPositions now s' = s'\<lparr>step_in_progress := False\<rparr>)"
proof -
  have "scroll_step s < 5 \<and> like_step s < 5 \<and> dubious_step s < 8" if "reachable cfg s"
    using that
  proof (induction rule: reachable.induct)
    case (reach_setup py pz t0)
    show ?case by (simp add: setup_state_def)
  next
    case (reach_loop s inp)
    from reach_loop.IH show ?case by (rule loop_steps)
  qed
  moreover have "updateServoPositions now s' = s'\<lparr>step_in_progress := False\<rparr>"
    if "step_in_progress s' \<and> 5 \<le> scroll_step s'"
    using that by (simp add: updateServoPositions_def)
  ultimately show ?thesis by blast
qed

theorem step_index_in_range_witness:
  "reachable demo_config scrolling
   \<and> scroll_step scrolling < 5 \<and> like_step scrolling < 5 \<and> dubious_step scrolling < 8
   \<and> step_in_progress scroll_out_of_range \<and> (5::nat) \<le> scroll_step scroll_out_of_range
   \<and> updateServoPositions 100 scroll_out_of_range
       = scroll_out_of_range\<lparr>step_in_progress := False\<rparr>"
proof -
  have r: "reachable demo_config scrolling"
    unfolding scrolling_def
    by (rule reach_loop [OF reach_setup [of _ 512 512 0, folded power_on_def]])
  have p: "step_in_progress scroll_out_of_range \<and> (5::nat) \<le> scroll_step scroll_out_of_range"
    by (simp add: scroll_out_of_range_def)
  from step_index_in_range [of demo_config scrolling scroll_out_of_range 100] r p
  show ?thesis by simp
qed

section \<open>When the Semi-Markov process advances\<close>

lemma serial_command_busy_flags:
  assumes "scroll_active s \<or> like_active s \<or> dubious_active s"
  shows "(scroll_active (serial_command c t s) \<longrightarrow> scroll_active s)
    \<and> (like_active (serial_command c t s) \<longrightarrow> like_active s)
    \<and> (dubious_active (serial_command c t s) \<longrightarrow> dubious_active s)
    \<and> (scroll_active (serial_command c t s) \<or> like_active (serial_command c t s)
        \<or> dubious_active (serial_command c t s) \<or> \<not> smm_mode_active (serial_command c t s))"
  using assms by (auto simp add: serial_command_def)

lemma command_phase_busy_flags:
  assumes "scroll_active s \<or> like_active s \<or> dubious_active s"
  shows "(scroll_active (command_phase inp s) \<longrightarrow> scroll_active s)
    \<and> (like_active (command_phase inp s) \<longrightarrow> like_active s)
    \<and> (dubious_active (command_phase inp s) \<longrightarrow> dubious_active s)
    \<and> (scroll_active (command_phase inp s) \<or> like_active (command_phase inp s)
        \<or> dubious_active (command_phase inp s) \<or> \<not> smm_mode_active (command_phase inp s))"
proof (cases "serial_in inp")
  case None
  with assms show ?thesis by (auto simp add: command_phase_def Let_def)
next
  case (Some c)
  have a: "scroll_active (s\<lparr>last_debug := d\<rparr>) \<or> like_active (s\<lparr>last_debug := d\<rparr>)
      \<or> dubious_active (s\<lparr>last_debug := d\<rparr>)" for d
    using assms by simp
  show ?thesis
  proof (cases "millis inp - last_debug s > 5000")
    case True
    with Some serial_command_busy_flags [OF a, of c "millis inp" "millis inp"]
    show ?thesis by (simp add: command_phase_def Let_def)
  next
    case False
    with Some serial_command_busy_flags [OF assms, of c "millis inp"]
    show ?thesis by (simp add: command_phase_def Let_def)
  qed
qed

lemma loop_view_idle:
  assumes "\<not> smm_guard (command_phase inp s)"
  shows "smm_view (loop cfg inp s) = smm_view s"
proof -
  let ?s1 = "command_phase inp s"
  have "\<not> smm_guard (potentiometer_control inp ?s1)"
    using assms by (simp add: smm_guard_def potentiometer_control_frame)
  then have "smm_execution cfg inp (potentiometer_control inp ?s1) = potentiometer_control inp ?s1"
    by (rule smm_execution_idle)
  moreover have "smm_execution cfg inp ?s1 = ?s1"
    using assms by (rule smm_execution_idle)
  ultimately show ?thesis
    by (simp add: loop_def Let_def executeScroll_view executeLike_frame executeDubious_frame
        potentiometer_control_frame command_phase_view)
qed

lemma loop_busy_flags:
  assumes "scroll_active s \<or> like_active s \<or> dubious_active s"
  shows "(scroll_active (loop cfg inp s) \<longrightarrow> scroll_active s)
    \<and> (like_active (loop cfg inp s) \<longrightarrow> like_active s)
    \<and> (dubious_active (loop cfg inp s) \<longrightarrow> dubious_active s)"
proof -
  let ?s1 = "command_phase inp s"
  note c = command_phase_busy_flags [OF assms, of inp]
  show ?thesis
  proof (cases "scroll_active ?s1 \<or> like_active ?s1 \<or> dubious_active ?s1")
    case True
    with c executeScroll_active [of "millis inp" ?s1] executeLike_active [of "millis inp" ?s1]
      executeDubious_active [of "millis inp" "rand1 inp" ?s1]
    show ?thesis
      by (auto simp add: loop_def Let_def executeScroll_frame executeLike_frame
          executeDubious_frame)
  next
    case False
    with c have off: "\<not> smm_mode_active ?s1" by blast
    then have "\<not> smm_guard (potentiometer_control inp ?s1)" "\<not> smm_guard ?s1"
      by (simp_all add: smm_guard_def potentiometer_control_frame)
    then have "smm_execution cfg inp (potentiometer_control inp ?s1) = potentiometer_control inp ?s1"
      "smm_execution cfg inp ?s1 = ?s1"
      by (simp_all add: smm_execution_idle)
    with False show ?thesis
      by (simp add: loop_def Let_def potentiometer_control_frame)
  qed
qed

text \<open>
  Claim C7. In every iteration of \<open>loop\<close> the variables of the Semi-Markov process
  (waiting flag, deadline, counters, current state, dwell totals, Like variant) change
  only if, after the command block, the autonomous mode is on, none of the three
  gesture flags is set and \<open>knobs_disabled\<close> is set. While a gesture is active the
  iteration leaves those variables alone and sets no gesture flag.
\<close>

theorem smm_advances_only_when_idle:
  "(smm_view (loop cfg inp s) \<noteq> smm_view s \<longrightarrow>
      smm_mode_active (command_phase inp s) \<and> \<not> scroll_active (command_phase inp s)
      \<and> \<not> like_active (command_phase inp s) \<and> \<not> dubious_active (command_phase inp s)
      \<and> knobs_disabled (command_phase inp s))
   \<and> (scroll_active s \<or> like_active s \<or> dubious_active s \<longrightarrow>
        smm_view (loop cfg inp s) = smm_view s
        \<and> (scroll_active (loop cfg inp s) \<longrightarrow> scroll_active s)
        \<and> (like_active (loop cfg inp s) \<longrightarrow> like_active s)
        \<and> (dubious_active (loop cfg inp s) \<longrightarrow> dubious_active s))"
proof -
  have adv: "smm_guard (command_phase inp s)" if "smm_view (loop cfg inp s) \<noteq> smm_view s"
    using that loop_view_idle [of inp s cfg] by blast
  have busy: "smm_view (loop cfg inp s) = smm_view s"
    if "scroll_active s \<or> like_active s \<or> dubious_active s"
  proof -
    from command_phase_busy_flags [OF that, of inp]
    have "\<not> smm_guard (command_phase inp s)"
      by (auto simp add: smm_guard_def)
    then show ?thesis by (rule loop_view_idle)
  qed
  from adv busy loop_busy_flags [of s cfg inp] show ?thesis
    unfolding smm_guard_def by blast
qed

theorem smm_advances_only_when_idle_witness:
  "smm_view (loop demo_config (tick (Some (CHR ''m'')) 0 32767 0) power_on) \<noteq> smm_view power_on
   \<and> smm_mode_active (command_phase (tick (Some (CHR ''m'')) 0 32767 0) power_on)
   \<and> \<not> scroll_active (command_phase (tick (Some (CHR ''m'')) 0 32767 0) power_on)
   \<and> \<not> like_active (command_phase (tick (Some (CHR ''m'')) 0 32767 0) power_on)
   \<and> \<not> dubious_active (command_phase (tick (Some (CHR ''m'')) 0 32767 0) power_on)
   \<and> knobs_disabled (command_phase (tick (Some (CHR ''m'')) 0 32767 0) power_on)
   \<and> scroll_active scrolling
   \<and> smm_view (loop demo_config (tick (Some (CHR ''m'')) 50 0 0) scrolling) = smm_view scrolling
   \<and> \<not> like_active (loop demo_config (tick (Some (CHR ''m'')) 50 0 0) scrolling)
   \<and> \<not> dubious_active (loop demo_config (tick (Some (CHR ''m'')) 50 0 0) scrolling)"
proof -
  have a: "smm_view (loop demo_config (tick (Some (CHR ''m'')) 0 32767 0) power_on)
      \<noteq> smm_view power_on"
    by (simp add: smm_view_def model_defs)
  have b: "scroll_active scrolling \<and> \<not> like_active scrolling \<and> \<not> dubious_active scrolling"
    by (simp add: scrolling_def model_defs)
  from a b smm_advances_only_when_idle [of demo_config "tick (Some (CHR ''m'')) 0 32767 0" power_on]
    smm_advances_only_when_idle [of demo_config "tick (Some (CHR ''m'')) 50 0 0" scrolling]
  show ?thesis by blast
qed

section \<open>Permanence of the disabled potentiometers\<close>

lemma serial_command_knobs:
  assumes "knobs_disabled s" and "\<not> is_reset (Some c)"
    and "\<not> (is_toggle (Some c) \<and> smm_mode_active s)"
  shows "knobs_disabled (serial_command c t s)"
  using assms by (auto simp add: serial_command_def is_reset_def is_toggle_def)

lemma command_phase_knobs:
  assumes "knobs_disabled s" and "\<not> is_reset (serial_in inp)"
    and "\<not> (is_toggle (serial_in inp) \<and> smm_mode_active s)"
  shows "knobs_disabled (command_phase inp s)"
proof (cases "serial_in inp")
  case None
  with assms(1) show ?thesis by (simp add: command_phase_def Let_def)
next
  case (Some c)
  have "knobs_disabled (serial_command c t (s\<lparr>last_debug := d\<rparr>))" for t d
    using assms Some by (intro serial_command_knobs) simp_all
  moreover have "knobs_disabled (serial_command c t s)" for t
    using assms Some by (intro serial_command_knobs) simp_all
  ultimately show ?thesis
    using Some by (simp add: command_phase_def Let_def)
qed

lemma loop_knobs:
  assumes "knobs_disabled s" and "\<not> is_reset (serial_in inp)"
    and "\<not> (is_toggle (serial_in inp) \<and> smm_mode_active s)"
  shows "knobs_disabled (loop cfg inp s)"
proof -
  have "knobs_disabled (command_phase inp s)"
    using assms by (rule command_phase_knobs)
  then show ?thesis
    by (simp add: loop_def Let_def executeScroll_frame executeLike_knobs executeDubious_knobs
        smm_execution_frame)
qed

lemma run_knobs:
  "knobs_disabled s \<Longrightarrow> no_reenable cfg s inps \<Longrightarrow> knobs_disabled (run cfg s inps)"
proof (induction inps arbitrary: s)
  case Nil
  then show ?case by simp
next
  case (Cons inp inps)
  from Cons.prems have "knobs_disabled (loop cfg inp s)"
    by (intro loop_knobs) simp_all
  moreover from Cons.prems have "no_reenable cfg (loop cfg inp s) inps"
    by simp
  ultimately show ?case
    using Cons.IH by simp
qed

lemma run_manual_like: "knobs_disabled after_like \<and> \<not> like_active after_like
    \<and> \<not> smm_mode_active after_like \<and> like_step after_like = 0 \<and> servo_y after_like = 140"
  by (simp add: after_like_def manual_like_inputs_def model_defs)

text \<open>
  Claim C2 says that after a Like or Dubious gesture has completed \<open>knobs_disabled\<close>
  stays set across a toggle of the autonomous mode, until a reset. The toggle that
  switches the mode off clears the flag itself: a manual Like gesture completes, the
  mode is switched on and off again, no reset is received, and the flag is clear.
\<close>

theorem knobs_reenabled_by_toggle_counterexample:
  "knobs_disabled after_like \<and> \<not> like_active after_like \<and> like_step after_like = 0
   \<and> \<not> is_reset (Some (CHR ''m''))
   \<and> \<not> knobs_disabled (run demo_config after_like toggle_on_off_inputs)"
  by (simp add: after_like_def manual_like_inputs_def toggle_on_off_inputs_def is_reset_def
      model_defs)

text \<open>
  Claim C2, amended. A tick that completes the Like or the Dubious gesture (the active
  flag goes from set to clear) sets \<open>knobs_disabled\<close>, and the flag then stays set
  over every run of iterations in which neither the reset command is received nor the
  mode toggle is received while the autonomous mode is on. A toggle that switches the
  mode on keeps the flag set.
\<close>

theorem knobs_stay_disabled:
  "(like_active s \<and> \<not> like_active (executeLike t s) \<longrightarrow> knobs_disabled (executeLike t s))
   \<and> (dubious_active s \<and> \<not> dubious_active (executeDubious t r s) \<longrightarrow>
        knobs_disabled (executeDubious t r s))
   \<and> (knobs_disabled s' \<and> no_reenable cfg s' inps \<longrightarrow> knobs_disabled (run cfg s' inps))"
proof -
  have "knobs_disabled (executeLike t s)"
    if "like_active s \<and> \<not> like_active (executeLike t s)"
    using that by (simp add: executeLike_def like_next_def split: if_splits)
  moreover have "knobs_disabled (executeDubious t r s)"
    if "dubious_active s \<and> \<not> dubious_active (executeDubious t r s)"
    using that
    by (simp add: executeDubious_def dubious_next_def dubious_wait_def split: if_splits)
  ultimately show ?thesis
    using run_knobs [of s' cfg inps] by blast
qed

theorem knobs_stay_disabled_witness:
  "like_active like_last_step \<and> \<not> like_active (executeLike 100 like_last_step)
   \<and> knobs_disabled (executeLike 100 like_last_step)
   \<and> dubious_active dubious_last_step \<and> \<not> dubious_active (executeDubious 200 0 dubious_last_step)
   \<and> knobs_disabled (executeDubious 200 0 dubious_last_step)
   \<and> knobs_disabled after_like
   \<and> no_reenable demo_config after_like [tick (Some (CHR ''m'')) 600 32767 0, tick (Some (CHR ''s'')) 650 0 0]
   \<and> knobs_disabled (run demo_config after_like
        [tick (Some (CHR ''m'')) 600 32767 0, tick (Some (CHR ''s'')) 650 0 0])"
proof -
  have a: "like_active like_last_step \<and> \<not> like_active (executeLike 100 like_last_step)"
    by (simp add: like_last_step_def model_defs)
  have b: "dubious_active dubious_last_step
      \<and> \<not> dubious_active (executeDubious 200 0 dubious_last_step)"
    by (simp add: dubious_last_step_def model_defs)
  have c: "knobs_disabled after_like \<and> \<not> smm_mode_active after_like"
    using run_manual_like by simp
  have d: "no_reenable demo_config after_like
      [tick (Some (CHR ''m'')) 600 32767 0, tick (Some (CHR ''s'')) 650 0 0]"
    using c by (simp add: is_reset_def is_toggle_def tick_def)
  from a b c d
    knobs_stay_disabled [where s = like_last_step and t = 100]
    knobs_stay_disabled [where s = dubious_last_step and t = 200 and r = 0
      and s' = after_like and cfg = demo_config
      and inps = "[tick (Some (CHR ''m'')) 600 32767 0, tick (Some (CHR ''s'')) 650 0 0]"]
  show ?thesis by blast
qed

section \<open>One cycle of the Semi-Markov process\<close>

lemma loop_smm_branch:
  assumes "smm_guard (command_phase inp s)"
  shows "loop cfg inp s = smm_execution cfg inp (command_phase inp s)"
  using assms by (simp add: loop_def Let_def smm_guard_def)

lemma smm_view_fields:
  assumes "smm_view a = smm_view b"
  shows "smm_waiting a = smm_waiting b" "smm_wait_start a = smm_wait_start b"
    "smm_wait_duration a = smm_wait_duration b" "event_counter a = event_counter b"
    "current_state a = current_state b" "state_transitions a = state_transitions b"
  using assms by (simp_all add: smm_view_def)

lemma smm_execution_dwell:
  assumes "smm_guard s" and "\<not> smm_waiting s"
  shows "smm_guard (smm_execution cfg inp s)" "smm_waiting (smm_execution cfg inp s)"
    "smm_wait_start (smm_execution cfg inp s) = millis inp"
    "current_state (smm_execution cfg inp s) = current_state s"
    "state_transitions (smm_execution cfg inp s) = state_transitions s"
    "event_counter (smm_execution cfg inp s) = event_counter s"
  using assms by (simp_all add: smm_execution_def Let_def smm_guard_def)

lemma smm_execution_act:
  assumes "smm_guard s" and "smm_waiting s"
    and "smm_wait_duration s \<le> millis inp - smm_wait_start s"
  shows "smm_execution cfg inp s =
    execute_smm_action (select_next_action cfg (current_state s) (rand1 inp)) inp
      (s\<lparr>smm_waiting := False\<rparr>)"
  using assms by (simp add: smm_execution_def Let_def)

lemma select_next_action_range:
  "select_next_action cfg st raw = ACTION_SCROLL \<or> select_next_action cfg st raw = ACTION_LIKE
   \<or> select_next_action cfg st raw = ACTION_DUBIOUS_SCROLL"
  by (simp add: select_next_action_def Let_def)

lemma execute_smm_action_state:
  assumes "a = ACTION_SCROLL \<or> a = ACTION_LIKE \<or> a = ACTION_DUBIOUS_SCROLL"
  shows "current_state (execute_smm_action a inp s) = state_of_action a"
    "state_transitions (execute_smm_action a inp s) =
       (state_transitions s)[current_state s := state_transitions s ! current_state s + 1]"
    "event_counter (execute_smm_action a inp s) = event_counter s + 1"
  using assms
  by (auto simp add: execute_smm_action_def Let_def state_of_action_def ACTION_SCROLL_def
      ACTION_LIKE_def ACTION_DUBIOUS_SCROLL_def)

text \<open>
  Claim C6 reads: after one dwell and action cycle from the state after a scroll,
  \<open>current_state\<close> is the state of the action taken and the transition counter of
  that state has gone up by one, the other two being unchanged. The counter that goes
  up is the one of the state the process was in: with the Like action taken, the
  counter of the state after a like is still 0 and the one of the state after a scroll
  is 1.
\<close>

theorem transition_counter_counterexample:
  "current_state power_on = STATE_AFTER_SCROLL
   \<and> smm_waiting (run demo_config power_on (take 1 smm_like_inputs))
   \<and> current_state after_smm_like = STATE_AFTER_LIKE
   \<and> state_transitions power_on = [0, 0, 0]
   \<and> state_transitions after_smm_like = [1, 0, 0]
   \<and> state_transitions after_smm_like ! current_state after_smm_like
       \<noteq> state_transitions power_on ! current_state after_smm_like + 1"
  by (simp add: after_smm_like_def smm_like_inputs_def model_defs)

lemma smm_execution_poll:
  assumes "smm_waiting s" and "millis inp - smm_wait_start s < smm_wait_duration s"
  shows "smm_execution cfg inp s = s"
proof -
  from assms(2) have "\<not> smm_wait_duration s \<le> millis inp - smm_wait_start s"
    by (simp add: not_le)
  with assms(1) show ?thesis
    unfolding smm_execution_def by simp
qed

lemma loop_view_dwelling:
  assumes "smm_waiting s"
    and "\<not> smm_guard (command_phase inp s) \<or> millis inp - smm_wait_start s < smm_wait_duration s"
  shows "smm_view (loop cfg inp s) = smm_view s"
proof (cases "smm_guard (command_phase inp s)")
  case False
  then show ?thesis by (rule loop_view_idle)
next
  case True
  note v = smm_view_fields [OF command_phase_view [of inp s]]
  from True assms(2) have "millis inp - smm_wait_start s < smm_wait_duration s"
    by blast
  with v have late: "millis inp - smm_wait_start (command_phase inp s)
      < smm_wait_duration (command_phase inp s)"
    by simp
  from assms(1) v have w: "smm_waiting (command_phase inp s)"
    by simp
  have "loop cfg inp s = command_phase inp s"
    using loop_smm_branch [OF True, of cfg] smm_execution_poll [OF w late, of cfg]
    by (rule trans)
  then show ?thesis
    using command_phase_view [of inp s] by (rule ssubst)
qed

lemma run_view_dwelling:
  "smm_waiting s \<Longrightarrow> dwelling cfg s inps \<Longrightarrow> smm_view (run cfg s inps) = smm_view s"
proof (induction inps arbitrary: s)
  case Nil
  then show ?case by simp
next
  case (Cons inp inps)
  from Cons.prems have c: "\<not> smm_guard (command_phase inp s)
      \<or> millis inp - smm_wait_start s < smm_wait_duration s"
    and rest: "dwelling cfg (loop cfg inp s) inps"
    by simp_all
  from Cons.prems(1) c have v: "smm_view (loop cfg inp s) = smm_view s"
    by (rule loop_view_dwelling)
  with Cons.prems(1) have "smm_waiting (loop cfg inp s)"
    using smm_view_fields(1) [OF v] by simp
  from this rest have "smm_view (run cfg (loop cfg inp s) inps) = smm_view (loop cfg inp s)"
    by (rule Cons.IH)
  with v show ?case by simp
qed

text \<open>
  Claim C6, amended. Start in the state after a scroll with the autonomous mode on (or
  switched on by this iteration's command), no gesture active and no dwell pending. The
  first iteration samples the dwell and waits. Any number of iterations may follow in
  which the Semi-Markov block takes no action (polls before the deadline, iterations
  spent on a manual gesture); they leave the waiting flag, the current state and all
  counters as they are. The next iteration in which the block runs with the dwell over
  takes an action. After it \<open>current_state\<close> is the state of the action taken, the
  transition counter of the state the process was in before (the state after a scroll)
  has gone up by exactly one, the other two counters are unchanged, and the event
  counter has gone up by one.
\<close>

theorem one_cycle_from_after_scroll:
  assumes "smm_guard (command_phase i1 s)" and "\<not> smm_waiting s"
    and "current_state s = STATE_AFTER_SCROLL" and "length (state_transitions s) = 3"
    and "dwelling cfg (loop cfg i1 s) polls"
    and "smm_guard (command_phase i2 (run cfg (loop cfg i1 s) polls))"
    and "smm_wait_duration (loop cfg i1 s) \<le> millis i2 - millis i1"
  shows "smm_waiting (loop cfg i1 s)
    \<and> current_state (loop cfg i1 s) = STATE_AFTER_SCROLL
    \<and> state_transitions (loop cfg i1 s) = state_transitions s
    \<and> smm_waiting (run cfg (loop cfg i1 s) polls)
    \<and> current_state (run cfg (loop cfg i1 s) polls) = STATE_AFTER_SCROLL
    \<and> state_transitions (run cfg (loop cfg i1 s) polls) = state_transitions s
    \<and> event_counter (run cfg (loop cfg i1 s) polls) = event_counter s
    \<and> current_state (loop cfg i2 (run cfg (loop cfg i1 s) polls)) =
        state_of_action (select_next_action cfg STATE_AFTER_SCROLL (rand1 i2))
    \<and> state_transitions (loop cfg i2 (run cfg (loop cfg i1 s) polls)) ! STATE_AFTER_SCROLL =
        state_transitions s ! STATE_AFTER_SCROLL + 1
    \<and> state_transitions (loop cfg i2 (run cfg (loop cfg i1 s) polls)) ! STATE_AFTER_LIKE =
        state_transitions s ! STATE_AFTER_LIKE
    \<and> state_transitions (loop cfg i2 (run cfg (loop cfg i1 s) polls)) ! STATE_AFTER_DUBIOUS =
        state_transitions s ! STATE_AFTER_DUBIOUS
    \<and> event_counter (loop cfg i2 (run cfg (loop cfg i1 s) polls)) = event_counter s + 1
    \<and> \<not> smm_waiting (loop cfg i2 (run cfg (loop cfg i1 s) polls))"
proof -
  let ?c1 = "command_phase i1 s"
  let ?s1 = "loop cfg i1 s"
  let ?sp = "run cfg ?s1 polls"
  let ?c2 = "command_phase i2 ?sp"
  let ?s2 = "loop cfg i2 ?sp"
  let ?a = "select_next_action cfg STATE_AFTER_SCROLL (rand1 i2)"
  note v1 = smm_view_fields [OF command_phase_view [of i1 s]]
  have nw: "\<not> smm_waiting ?c1"
    using assms(2) v1(1) by simp
  have s1: "?s1 = smm_execution cfg i1 ?c1"
    using assms(1) by (rule loop_smm_branch)
  note d = smm_execution_dwell [OF assms(1) nw, of cfg i1, folded s1]
  have first: "smm_waiting ?s1" "current_state ?s1 = STATE_AFTER_SCROLL"
    "state_transitions ?s1 = state_transitions s" "event_counter ?s1 = event_counter s"
    "smm_wait_start ?s1 = millis i1"
    using d v1 assms(3) by simp_all
  note vp = smm_view_fields [OF run_view_dwelling [OF first(1) assms(5)]]
  have polled: "smm_waiting ?sp" "current_state ?sp = STATE_AFTER_SCROLL"
    "state_transitions ?sp = state_transitions s" "event_counter ?sp = event_counter s"
    "smm_wait_start ?sp = millis i1" "smm_wait_duration ?sp = smm_wait_duration ?s1"
    using vp first by simp_all
  note v2 = smm_view_fields [OF command_phase_view [of i2 ?sp]]
  have w2: "smm_waiting ?c2"
    using polled(1) v2(1) by simp
  have due: "smm_wait_duration ?c2 \<le> millis i2 - smm_wait_start ?c2"
    using assms(7) polled(5,6) v2(2,3) by simp
  have s2: "?s2 = execute_smm_action ?a i2 (?c2\<lparr>smm_waiting := False\<rparr>)"
    using loop_smm_branch [OF assms(6), of cfg] smm_execution_act [OF assms(6) w2 due, of cfg]
      v2(5) polled(2) by simp
  note e = execute_smm_action_state [OF select_next_action_range [of cfg STATE_AFTER_SCROLL "rand1 i2"],
      of i2 "?c2\<lparr>smm_waiting := False\<rparr>", folded s2]
  have tr: "state_transitions ?s2 =
      (state_transitions s)[STATE_AFTER_SCROLL := state_transitions s ! STATE_AFTER_SCROLL + 1]"
    using e(2) v2(5,6) polled(2,3) by simp
  have ev: "event_counter ?s2 = event_counter s + 1"
    using e(3) v2(4) polled(4) by simp
  have nw2: "\<not> smm_waiting ?s2"
    unfolding s2 by (simp add: execute_smm_action_def Let_def)
  from assms(4) tr have cnt:
    "state_transitions ?s2 ! STATE_AFTER_SCROLL = state_transitions s ! STATE_AFTER_SCROLL + 1"
    "state_transitions ?s2 ! STATE_AFTER_LIKE = state_transitions s ! STATE_AFTER_LIKE"
    "state_transitions ?s2 ! STATE_AFTER_DUBIOUS = state_transitions s ! STATE_AFTER_DUBIOUS"
    by (simp_all add: STATE_AFTER_SCROLL_def STATE_AFTER_LIKE_def STATE_AFTER_DUBIOUS_def)
  from first(1,2,3) polled(1,2,3,4) e(1) cnt ev nw2 show ?thesis
    by blast
qed

lemma run_polls:
  "dwelling demo_config autonomous smm_poll_inputs
   \<and> smm_guard (command_phase (tick None 600 22937 1) after_polls)
   \<and> \<not> like_active after_polls \<and> like_step after_polls = 0 \<and> servo_y after_polls = 140"
  by (simp add: after_polls_def autonomous_def smm_poll_inputs_def model_defs)

theorem one_cycle_from_after_scroll_witness:
  "smm_guard (command_phase (tick (Some (CHR ''m'')) 0 32767 0) power_on)
   \<and> \<not> smm_waiting power_on \<and> current_state power_on = STATE_AFTER_SCROLL
   \<and> length (state_transitions power_on) = 3
   \<and> dwelling demo_config autonomous smm_poll_inputs
   \<and> smm_guard (command_phase (tick None 600 22937 1) after_polls)
   \<and> smm_wait_duration autonomous
       \<le> millis (tick None 600 22937 1) - millis (tick (Some (CHR ''m'')) 0 32767 0)
   \<and> select_next_action demo_config STATE_AFTER_SCROLL (rand1 (tick None 600 22937 1)) = ACTION_LIKE
   \<and> smm_waiting after_polls
   \<and> state_transitions after_polls = [0, 0, 0]
   \<and> current_state (loop demo_config (tick None 600 22937 1) after_polls) = STATE_AFTER_LIKE
   \<and> state_transitions (loop demo_config (tick None 600 22937 1) after_polls)
        ! STATE_AFTER_SCROLL = 1
   \<and> state_transitions (loop demo_config (tick None 600 22937 1) after_polls)
        ! STATE_AFTER_LIKE = 0
   \<and> state_transitions (loop demo_config (tick None 600 22937 1) after_polls)
        ! STATE_AFTER_DUBIOUS = 0
   \<and> event_counter (loop demo_config (tick None 600 22937 1) after_polls) = 1"
proof -
  let ?i1 = "tick (Some (CHR ''m'')) 0 32767 0"
  let ?i2 = "tick None 600 22937 1"
  have h1: "smm_guard (command_phase ?i1 power_on)"
    by (simp add: model_defs)
  have h2: "\<not> smm_waiting power_on"
    by (simp add: model_defs)
  have h3: "current_state power_on = STATE_AFTER_SCROLL"
    by (simp add: model_defs)
  have h4: "length (state_transitions power_on) = 3"
    by (simp add: model_defs)
  have h5: "dwelling demo_config (loop demo_config ?i1 power_on) smm_poll_inputs"
    using run_polls by (simp add: autonomous_def)
  have h6: "smm_guard (command_phase ?i2
      (run demo_config (loop demo_config ?i1 power_on) smm_poll_inputs))"
    using run_polls by (simp add: autonomous_def after_polls_def)
  have h7: "smm_wait_duration (loop demo_config ?i1 power_on) \<le> millis ?i2 - millis ?i1"
    by (simp add: model_defs)
  have a: "select_next_action demo_config STATE_AFTER_SCROLL (rand1 ?i2) = ACTION_LIKE"
    by (simp add: model_defs)
  have t0: "state_transitions power_on = [0, 0, 0] \<and> event_counter power_on = 0"
    by (simp add: model_defs)
  note cycle = one_cycle_from_after_scroll [OF h1 h2 h3 h4 h5 h6 h7,
      folded autonomous_def, folded after_polls_def]
  from cycle h1 h2 h3 h4 h5 [folded autonomous_def] h6 [folded autonomous_def,
      folded after_polls_def] h7 [folded autonomous_def] a t0
  show ?thesis
    by (simp add: state_of_action_def ACTION_SCROLL_def ACTION_LIKE_def STATE_AFTER_SCROLL_def
        STATE_AFTER_LIKE_def STATE_AFTER_DUBIOUS_def)
qed

section \<open>The random waits of the Dubious gesture\<close>































section \<open>The variant of the Like gesture\<close>

lemma loop_like_branch:
  assumes "\<not> scroll_active (command_phase inp s)" and "like_active (command_phase inp s)"
  shows "loop cfg inp s = executeLike (millis inp) (command_phase inp s)"
  using assms by (simp add: loop_def Let_def)

lemma after_smm_like_state:
  "use_like2_variant after_smm_like \<and> like_active after_smm_like
   \<and> \<not> scroll_active after_smm_like \<and> like_step after_smm_like = 0
   \<and> last_step_time after_smm_like = 100"
  by (simp add: after_smm_like_def smm_like_inputs_def model_defs)

text \<open>
  Claim C1. When the Semi-Markov process fires the Like action it draws the variant
  with \<open>random(0, 2)\<close> and stores it in \<open>use_like2_variant\<close>, and the gesture then
  executed should be the variant drawn. The program never reads the variable:
  \<open>loop\<close> calls \<open>executeLike\<close> whenever \<open>like_active\<close> is set (lemma
  \<open>loop_like_branch\<close>). Evaluated at a run in which the coin selects variant 2:
  three ticks of \<open>executeLike2\<close> would complete the gesture with the servos at 152
  and 110, while the three iterations of \<open>loop\<close> leave the gesture active at step 3
  of the five-step variant with the servos at 140 and 120.
\<close>

theorem like_variant_2_not_executed:
  "use_like2_variant after_smm_like \<and> like_active after_smm_like
   \<and> like_step after_smm_like = 0
   \<and> \<not> like_active (executeLike2 400 (executeLike2 300 (executeLike2 200 after_smm_like)))
   \<and> servo_y (executeLike2 400 (executeLike2 300 (executeLike2 200 after_smm_like))) = 152
   \<and> servo_z (executeLike2 400 (executeLike2 300 (executeLike2 200 after_smm_like))) = 110
   \<and> use_like2_variant (run demo_config after_smm_like like_ticks)
   \<and> like_active (run demo_config after_smm_like like_ticks)
   \<and> like_step (run demo_config after_smm_like like_ticks) = 3
   \<and> servo_y (run demo_config after_smm_like like_ticks) = 140
   \<and> servo_z (run demo_config after_smm_like like_ticks) = 120"
  by (simp add: after_smm_like_def smm_like_inputs_def like_ticks_def model_defs)


section \<open>The duration of an interpolated move\<close>

lemma smoothMoveServos_ignores_duration:
  "smoothMoveServos y z d now s = smoothMoveServos y z d' now s"
  by (simp add: smoothMoveServos_def)

text \<open>
  Claim C3. A move begun by \<open>smoothMoveServos\<close> with duration \<open>D\<close> should reach
  its target exactly at the first tick at or after \<open>D\<close>, with gradual progress
  before. The function does not store its duration (lemma
  \<open>smoothMoveServos_ignores_duration\<close>); \<open>updateServoPositions\<close> reads
  \<open>scroll_step_delays\<close> at \<open>scroll_step\<close>, which \<open>executeScroll\<close> has already
  incremented. Evaluated: the first move of the scroll is requested over 200 ms from
  (180, 0) to (142, 142), and the tick 200 ms after its start leaves it in progress at
  (155, 94), two thirds of the way, because the 300 ms of the next step are used; the
  third move is requested over 300 ms and is complete 1 ms after its start, because the
  0 ms of the next step are used.
\<close>

theorem scroll_move_uses_next_step_delay:
  "step_in_progress scrolling \<and> step_start_time scrolling = 0
   \<and> start_y scrolling = 180 \<and> start_z scrolling = 0
   \<and> target_y scrolling = 142 \<and> target_z scrolling = 142
   \<and> scroll_step_delays ! 0 = 200
   \<and> step_in_progress (loop demo_config (tick None 200 0 0) scrolling)
   \<and> current_y (loop demo_config (tick None 200 0 0) scrolling) = 155
   \<and> current_z (loop demo_config (tick None 200 0 0) scrolling) = 94
   \<and> step_in_progress scroll_third_move \<and> step_start_time scroll_third_move = 600
   \<and> current_y scroll_third_move = 110 \<and> current_z scroll_third_move = 142
   \<and> target_y scroll_third_move = 90 \<and> target_z scroll_third_move = 100
   \<and> scroll_step_delays ! 2 = 300
   \<and> current_y (loop demo_config (tick None 601 0 0) scroll_third_move) = 90
   \<and> current_z (loop demo_config (tick None 601 0 0) scroll_third_move) = 100
   \<and> servo_y (loop demo_config (tick None 601 0 0) scroll_third_move) = 90
   \<and> servo_z (loop demo_config (tick None 601 0 0) scroll_third_move) = 100"
  by (simp add: scroll_third_move_def scrolling_def model_defs)

end
